theory Spec2Isabelle
  imports Main
begin

section \<open>MoxField EDHREC combo display: the expiring cache, the name normalizer, the combo fetcher\<close>

text \<open>
  The userscript \<^verbatim>\<open>moxfield_edhrec_combo.js\<close> (the second file of the repository is the
  same program with other comments) is embedded function by function. Mutable objects
  become values that are passed in and returned; \<^verbatim>\<open>Date.now()\<close> is an argument of
  every function that reads the clock; \<^verbatim>\<open>null\<close> is \<open>None\<close>.
\<close>

subsection \<open>TTLCache\<close>

text \<open>
  An entry is the object \<^verbatim>\<open>{value, timestamp}\<close> that \<^verbatim>\<open>set\<close> stores. The stored value may
  be \<^verbatim>\<open>null\<close>, so it is an option; timestamps are milliseconds.
\<close>

record 'v item =
  val :: "'v option"
  timestamp :: int

record ('k, 'v) TTLCache =
  ttl :: int
  cache :: "'k \<rightharpoonup> 'v item"

text \<open>\<^verbatim>\<open>constructor(ttlHours = 1)\<close>: hours to milliseconds, and an empty map.\<close>

definition TTLCache_new :: "int \<Rightarrow> ('k, 'v) TTLCache" where
  "TTLCache_new ttlHours = \<lparr>ttl = ttlHours * 60 * 60 * 1000, cache = Map.empty\<rparr>"

text \<open>
  \<^verbatim>\<open>get(key)\<close>: a missing entry gives \<^verbatim>\<open>null\<close>; an entry older than the time-to-live is
  deleted and gives \<^verbatim>\<open>null\<close>; otherwise the stored value (itself possibly \<^verbatim>\<open>null\<close>) is
  returned. The result is paired with the cache after the call.
\<close>

definition TTLCache_get :: "int \<Rightarrow> 'k \<Rightarrow> ('k, 'v) TTLCache \<Rightarrow> 'v option \<times> ('k, 'v) TTLCache" where
  "TTLCache_get now key c =
     (case cache c key of
        None \<Rightarrow> (None, c)
      | Some it \<Rightarrow>
          if now - timestamp it > ttl c
          then (None, c\<lparr>cache := (cache c)(key := None)\<rparr>)
          else (val it, c))"

text \<open>\<^verbatim>\<open>set(key, value)\<close>: always overwrites, with the current time.\<close>

definition TTLCache_set :: "int \<Rightarrow> 'k \<Rightarrow> 'v option \<Rightarrow> ('k, 'v) TTLCache \<Rightarrow> ('k, 'v) TTLCache" where
  "TTLCache_set now key v c = c\<lparr>cache := (cache c)(key \<mapsto> \<lparr>val = v, timestamp = now\<rparr>)\<rparr>"

subsection \<open>formatCardName\<close>

text \<open>
  A JavaScript string is a sequence of code units. A \<^typ>\<open>char\<close> stands for one code unit
  below 256 (Basic Latin and Latin-1 Supplement, the range card names are written in), so
  that \<^verbatim>\<open>toLowerCase\<close>, the class \<^verbatim>\<open>\s\<close> and \<^verbatim>\<open>trim\<close> are the ones of the language on
  that range:
  \<^item> \<^verbatim>\<open>toLowerCase\<close> maps \<^verbatim>\<open>A-Z\<close> and the upper-case letters U+00C0 to U+00DE (but not the
    multiplication sign U+00D7) 32 places up, and nothing else;
  \<^item> \<^verbatim>\<open>\s\<close>, and what \<^verbatim>\<open>trim\<close> removes, is U+0009 to U+000D, the space and U+00A0.
\<close>

definition toLowerCase_char :: "char \<Rightarrow> char" where
  "toLowerCase_char c =
     (let n = (of_char c :: nat)
      in if (65 \<le> n \<and> n \<le> 90) \<or> (192 \<le> n \<and> n \<le> 222 \<and> n \<noteq> 215)
         then char_of (n + 32) else c)"

definition toLowerCase :: "string \<Rightarrow> string" where
  "toLowerCase s = map toLowerCase_char s"

definition is_space :: "char \<Rightarrow> bool" where
  "is_space c = (let n = (of_char c :: nat) in (9 \<le> n \<and> n \<le> 13) \<or> n = 32 \<or> n = 160)"

text \<open>The characters that the class \<^verbatim>\<open>[^a-z0-9\s]\<close> does not match, which are kept.\<close>

definition kept_char :: "char \<Rightarrow> bool" where
  "kept_char c =
     (let n = (of_char c :: nat)
      in (97 \<le> n \<and> n \<le> 122) \<or> (48 \<le> n \<and> n \<le> 57) \<or> is_space c)"

text \<open>\<^verbatim>\<open>.replace(/[^a-z0-9\s]/g, '')\<close>\<close>

definition strip_other :: "string \<Rightarrow> string" where
  "strip_other s = filter kept_char s"

text \<open>\<^verbatim>\<open>.trim()\<close>\<close>

definition trim :: "string \<Rightarrow> string" where
  "trim s = rev (dropWhile is_space (rev (dropWhile is_space s)))"

text \<open>\<^verbatim>\<open>.replace(/\s+/g, '-')\<close>: every maximal run of white space becomes one hyphen.\<close>

function hyphenate :: "string \<Rightarrow> string" where
  "hyphenate [] = []"
| "hyphenate (c # cs) =
     (if is_space c then CHR ''-'' # hyphenate (dropWhile is_space cs)
      else c # hyphenate cs)"
  by pat_completeness auto
termination
  by (relation "measure length") (auto simp: length_dropWhile_le less_Suc_eq_le)

definition formatCardName :: "string \<Rightarrow> string" where
  "formatCardName cardName = hyphenate (trim (strip_other (toLowerCase cardName)))"

subsection \<open>fetchComboData\<close>

text \<open>
  The response body, as far as the script reads it. A combo group of
  \<^verbatim>\<open>data.container.json_dict.cardlists\<close> has a \<^verbatim>\<open>header\<close> (absent when the property is
  missing, and then \<^verbatim>\<open>combo.header.includes\<close> throws a TypeError), a \<^verbatim>\<open>href\<close>, an optional
  array \<^verbatim>\<open>cardviews\<close> and optional \<^verbatim>\<open>combo.results\<close>.
\<close>

record cardview =
  sanitized :: string

record cardlist =
  json_header :: "string option"
  json_href :: string
  json_cardviews :: "cardview list option"
  json_results :: "string list option"

text \<open>The Combo Record that the filter's \<^verbatim>\<open>map\<close> builds.\<close>

record combo =
  header :: "string option"
  href :: string
  results :: "string list"

text \<open>
  \<open>Unparsable\<close>: \<^verbatim>\<open>response.json()\<close> rejects, or what it yields makes the script throw
  before it filters (the value \<^verbatim>\<open>null\<close>, or \<^verbatim>\<open>cardlists\<close> that is not an array).
  \<open>Parsed None\<close>: the body parses and the path \<^verbatim>\<open>container?.json_dict?.cardlists\<close> is
  missing, so that \<^verbatim>\<open>|| []\<close> applies. \<open>Parsed (Some l)\<close>: the array of combo groups.
\<close>

datatype body = Unparsable | Parsed "cardlist list option"

text \<open>\<open>NetworkError\<close>: \<^verbatim>\<open>fetch\<close> rejects. Otherwise a status and a body.\<close>

datatype response = NetworkError | Response nat body

text \<open>\<^verbatim>\<open>response.ok\<close>: the status is in the range 200 to 299.\<close>

definition response_ok :: "nat \<Rightarrow> bool" where
  "response_ok status = (200 \<le> status \<and> status \<le> 299)"

datatype error = TypeError

text \<open>\<^verbatim>\<open>haystack.includes(needle)\<close> on strings: \<open>needle\<close> occurs in \<open>haystack\<close>.\<close>

fun string_includes :: "string \<Rightarrow> string \<Rightarrow> bool" where
  "string_includes [] needle = (needle = [])"
| "string_includes (c # cs) needle =
     (take (length needle) (c # cs) = needle \<or> string_includes cs needle)"

text \<open>
  The callback of \<^verbatim>\<open>combos.filter\<close>:
  \<^verbatim>\<open>combo.cardviews && combo.cardviews.some(cv => cv.sanitized === formattedName)
     || combo.header.includes(cardName)\<close>.
  The header is only read when the left operand is falsy.
\<close>

definition combo_matches :: "string \<Rightarrow> string \<Rightarrow> cardlist \<Rightarrow> error + bool" where
  "combo_matches cardName formattedName combo =
     (if (case json_cardviews combo of
            None \<Rightarrow> False
          | Some cvs \<Rightarrow> list_ex (\<lambda>cardview. sanitized cardview = formattedName) cvs)
      then Inr True
      else (case json_header combo of
              None \<Rightarrow> Inl TypeError
            | Some h \<Rightarrow> Inr (string_includes h cardName)))"

text \<open>\<^verbatim>\<open>Array.prototype.filter\<close> with a callback that may throw: the first throw ends it.\<close>

fun filter_throwing :: "('a \<Rightarrow> error + bool) \<Rightarrow> 'a list \<Rightarrow> error + 'a list" where
  "filter_throwing p [] = Inr []"
| "filter_throwing p (x # xs) =
     (case p x of
        Inl e \<Rightarrow> Inl e
      | Inr b \<Rightarrow>
          (case filter_throwing p xs of
             Inl e \<Rightarrow> Inl e
           | Inr ys \<Rightarrow> Inr (if b then x # ys else ys)))"

text \<open>The callback of \<^verbatim>\<open>.map\<close>; \<^verbatim>\<open>combo.combo?.results || []\<close>.\<close>

definition to_combo :: "cardlist \<Rightarrow> combo" where
  "to_combo c =
     \<lparr>header = json_header c, href = json_href c,
      results = (case json_results c of None \<Rightarrow> [] | Some r \<Rightarrow> r)\<rparr>"

text \<open>
  The state of the script that the fetcher touches: the module's \<^verbatim>\<open>cache\<close>, and the list
  of the URLs passed to \<^verbatim>\<open>fetch\<close> so far, oldest first (one element for each network
  request).
\<close>

record state =
  ttlcache :: "(string, combo list) TTLCache"
  requests :: "string list"

text \<open>\<^verbatim>\<open>let cache = new TTLCache();\<close> takes the default of one hour; nothing was fetched yet.\<close>

definition initial_state :: state where
  "initial_state = \<lparr>ttlcache = TTLCache_new 1, requests = []\<rparr>"

text \<open>
  What \<^verbatim>\<open>fetchComboData\<close> does once \<^verbatim>\<open>await fetch(url)\<close> has settled with \<open>resp\<close>; \<open>now\<close>
  is the clock when \<^verbatim>\<open>cache.set\<close> runs. Every exception inside the \<^verbatim>\<open>try\<close> ends in the
  \<^verbatim>\<open>catch\<close>, which returns \<^verbatim>\<open>null\<close> and writes nothing.
\<close>

definition on_response :: "int \<Rightarrow> response \<Rightarrow> string \<Rightarrow> string \<Rightarrow> state \<Rightarrow> combo list option \<times> state" where
  "on_response now resp cardName formattedName s =
     (case resp of
        NetworkError \<Rightarrow> (None, s)
      | Response status b \<Rightarrow>
          if \<not> response_ok status then
            (if status = 403
             then (None, s\<lparr>ttlcache := TTLCache_set now cardName None (ttlcache s)\<rparr>)
             else (None, s))
          else
            (case b of
               Unparsable \<Rightarrow> (None, s)
             | Parsed cardlists \<Rightarrow>
                 (let combos = (case cardlists of None \<Rightarrow> [] | Some l \<Rightarrow> l)
                  in case filter_throwing (combo_matches cardName formattedName) combos of
                       Inl e \<Rightarrow> (None, s)
                     | Inr kept \<Rightarrow>
                         (let filteredCombos = map to_combo kept;
                              result = (if length filteredCombos > 0 then Some filteredCombos else None)
                          in (result, s\<lparr>ttlcache := TTLCache_set now cardName result (ttlcache s)\<rparr>)))))"

text \<open>
  \<^verbatim>\<open>fetchComboData(cardName)\<close>. \<open>t_get\<close> is the clock at \<^verbatim>\<open>cache.get\<close>, \<open>t_set\<close> the clock at
  \<^verbatim>\<open>cache.set\<close>, \<open>resp\<close> what the network answers if it is asked. The test
  \<^verbatim>\<open>if (cachedData)\<close> is one of truthiness: an array is truthy (also the empty one),
  \<^verbatim>\<open>null\<close> is falsy.
\<close>

definition fetchComboData :: "int \<Rightarrow> int \<Rightarrow> response \<Rightarrow> string \<Rightarrow> state \<Rightarrow> combo list option \<times> state" where
  "fetchComboData t_get t_set resp cardName s =
     (let (cachedData, c1) = TTLCache_get t_get cardName (ttlcache s);
          s1 = s\<lparr>ttlcache := c1\<rparr>
      in case cachedData of
           Some d \<Rightarrow> (Some d, s1)
         | None \<Rightarrow>
             (let formattedName = formatCardName cardName;
                  url = ''https://json.edhrec.com/pages/combos/'' @ formattedName @ ''.json'';
                  s2 = s1\<lparr>requests := requests s1 @ [url]\<rparr>
              in on_response t_set resp cardName formattedName s2))"

text \<open>The invariant of the data model: no entry of the cache holds an empty array.\<close>

definition cache_inv :: "('k, 'a list) TTLCache \<Rightarrow> bool" where
  "cache_inv c = (\<forall>k it. cache c k = Some it \<longrightarrow> val it \<noteq> Some [])"

subsection \<open>The document and displayComboResults\<close>

text \<open>
  The page is a forest of nodes: the child nodes of \<^verbatim>\<open>document\<close>. An element has a tag
  name (lower case), an \<^verbatim>\<open>id\<close> (empty when it has none), its \<^verbatim>\<open>classList\<close>, the other
  attributes the script sets (\<^verbatim>\<open>href\<close>, \<^verbatim>\<open>target\<close>) and its child nodes. Inline styles
  (\<^verbatim>\<open>style.cssText\<close>) change no structure and are left out.
\<close>

datatype node =
    Text string
  | Element string string "string list" "(string \<times> string) list" "node list"

type_synonym document = "node list"

text \<open>All nodes of a forest in tree order (a node before its children and its later siblings).\<close>

fun all_nodes :: "node list \<Rightarrow> node list" where
  "all_nodes [] = []"
| "all_nodes (Text t # ns) = Text t # all_nodes ns"
| "all_nodes (Element tg i cl at ch # ns) = Element tg i cl at ch # all_nodes ch @ all_nodes ns"

definition count_nodes :: "(node \<Rightarrow> bool) \<Rightarrow> node list \<Rightarrow> nat" where
  "count_nodes P doc = length (filter P (all_nodes doc))"

text \<open>
  A node reference that a lookup returns is the first element in tree order that the
  selector matches (a lookup never returns a text node). The three functions below are a
  lookup, and a lookup followed by \<^verbatim>\<open>.remove()\<close> or by \<^verbatim>\<open>.appendChild(new)\<close> on the
  element that was found; where nothing is found the last two change nothing.
\<close>

fun find_first :: "(node \<Rightarrow> bool) \<Rightarrow> node list \<Rightarrow> node option" where
  "find_first P [] = None"
| "find_first P (Text t # ns) = find_first P ns"
| "find_first P (Element tg i cl at ch # ns) =
     (if P (Element tg i cl at ch) then Some (Element tg i cl at ch)
      else (case find_first P ch of
              Some m \<Rightarrow> Some m
            | None \<Rightarrow> find_first P ns))"

fun remove_first :: "(node \<Rightarrow> bool) \<Rightarrow> node list \<Rightarrow> node list" where
  "remove_first P [] = []"
| "remove_first P (Text t # ns) = Text t # remove_first P ns"
| "remove_first P (Element tg i cl at ch # ns) =
     (if P (Element tg i cl at ch) then ns
      else (case find_first P ch of
              Some m \<Rightarrow> Element tg i cl at (remove_first P ch) # ns
            | None \<Rightarrow> Element tg i cl at ch # remove_first P ns))"

fun append_child_first :: "(node \<Rightarrow> bool) \<Rightarrow> node \<Rightarrow> node list \<Rightarrow> node list" where
  "append_child_first P new [] = []"
| "append_child_first P new (Text t # ns) = Text t # append_child_first P new ns"
| "append_child_first P new (Element tg i cl at ch # ns) =
     (if P (Element tg i cl at ch) then Element tg i cl at (ch @ [new]) # ns
      else (case find_first P ch of
              Some m \<Rightarrow> Element tg i cl at (append_child_first P new ch) # ns
            | None \<Rightarrow> Element tg i cl at ch # append_child_first P new ns))"

text \<open>The selector of \<^verbatim>\<open>document.getElementById(i)\<close>.\<close>

fun has_id :: "string \<Rightarrow> node \<Rightarrow> bool" where
  "has_id i (Text t) = False"
| "has_id i (Element tg j cl at ch) = (j = i)"

definition getElementById :: "string \<Rightarrow> document \<Rightarrow> node option" where
  "getElementById i doc = find_first (has_id i) doc"

text \<open>The selector \<^verbatim>\<open>aside.deckview-image-container.is-owner\<close>.\<close>

fun is_aside :: "node \<Rightarrow> bool" where
  "is_aside (Text t) = False"
| "is_aside (Element tg j cl at ch) =
     (tg = ''aside'' \<and> ''deckview-image-container'' \<in> set cl \<and> ''is-owner'' \<in> set cl)"

definition panel_id :: string where
  "panel_id = ''moxfield-combo-display''"

text \<open>The decimal digits of a number, as a template literal prints \<^verbatim>\<open>comboData.length\<close>.\<close>

definition digit_char :: "nat \<Rightarrow> char" where
  "digit_char d = char_of (of_char CHR ''0'' + d)"

fun string_of_nat :: "nat \<Rightarrow> string" where
  "string_of_nat n =
     (let last_digit = digit_char (n mod 10)
      in if n div 10 = 0 then [last_digit] else string_of_nat (n div 10) @ [last_digit])"

text \<open>
  Assigning a string to \<^verbatim>\<open>textContent\<close> replaces the children by one text node, and by
  nothing when the string is empty.
\<close>

definition textContent :: "string \<Rightarrow> node list" where
  "textContent s = (if s = [] then [] else [Text s])"

text \<open>The \<^verbatim>\<open>li\<close> of one result string.\<close>

definition result_item :: "string \<Rightarrow> node" where
  "result_item result = Element ''li'' [] [] [] (textContent result)"

text \<open>
  The body of \<^verbatim>\<open>comboData.forEach\<close>: the link, with the header line and the list of
  results as its two children. A header that is undefined is assigned as \<^verbatim>\<open>null\<close>, which
  leaves the \<^verbatim>\<open>span\<close> without text.
\<close>

definition combo_entry :: "combo \<Rightarrow> node" where
  "combo_entry c =
     Element ''a'' [] [''border-primary'']
       [(''href'', ''https://edhrec.com'' @ href c), (''target'', ''_blank'')]
       [Element ''span'' [] [''text-primary''] []
          (case header c of None \<Rightarrow> [] | Some h \<Rightarrow> textContent h),
        Element ''ul'' [] [''text-secondary''] [] (map result_item (results c))]"

text \<open>
  The panel \<^verbatim>\<open>comboDisplay\<close> before it is attached. The script appends \<^verbatim>\<open>headerElement\<close>
  twice; the second \<^verbatim>\<open>appendChild\<close> of a node that is already the last child leaves the
  children as they are.
\<close>

definition combo_panel :: "string \<Rightarrow> combo list \<Rightarrow> node" where
  "combo_panel cardName comboData =
     Element ''div'' panel_id [] []
       [Element ''span'' [] [] []
          (textContent (''Combo For '' @ cardName @ '' ('' @ string_of_nat (length comboData) @ '')'')),
        Element ''div'' [] [''d-grid''] [] (map combo_entry comboData)]"

text \<open>
  \<^verbatim>\<open>displayComboResults(cardName, comboData)\<close>, as a function from the document before
  the call to the document after it. \<^verbatim>\<open>!comboData\<close> holds for \<^verbatim>\<open>null\<close> only: every array
  is truthy.
\<close>

definition displayComboResults :: "string \<Rightarrow> combo list option \<Rightarrow> document \<Rightarrow> document" where
  "displayComboResults cardName comboData doc =
     (let doc1 = (case getElementById panel_id doc of
                    Some existingDisplay \<Rightarrow> remove_first (has_id panel_id) doc
                  | None \<Rightarrow> doc)
      in case comboData of
           None \<Rightarrow> doc1
         | Some combos \<Rightarrow>
             (case find_first is_aside doc1 of
                None \<Rightarrow> doc1
              | Some asideElement \<Rightarrow>
                  append_child_first is_aside (combo_panel cardName combos) doc1))"

section \<open>Properties of the name normalizer\<close>

lemma kept_hyphen: "\<not> kept_char CHR ''-''"
  by (simp add: kept_char_def is_space_def)

lemma toLowerCase_hyphen: "toLowerCase_char CHR ''-'' = CHR ''-''"
  by (simp add: toLowerCase_char_def)

lemma toLowerCase_kept: "kept_char c \<Longrightarrow> toLowerCase_char c = c"
  by (auto simp: kept_char_def toLowerCase_char_def is_space_def Let_def)

lemma set_dropWhile_subset: "set (dropWhile P xs) \<subseteq> set xs"
  by (induction xs) auto

lemma hyphenate_set: "set (hyphenate s) \<subseteq> insert CHR ''-'' {c \<in> set s. \<not> is_space c}"
proof (induction s rule: hyphenate.induct)
  case 1
  show ?case by simp
next
  case (2 c cs)
  show ?case
  proof (cases "is_space c")
    case True
    have "set (dropWhile is_space cs) \<subseteq> set cs"
      by (rule set_dropWhile_subset)
    with 2(1)[OF True] True show ?thesis by auto
  next
    case False
    with 2(2)[OF False] show ?thesis by auto
  qed
qed

lemma hyphenate_no_space: "\<forall>c \<in> set s. \<not> is_space c \<Longrightarrow> hyphenate s = s"
  by (induction s) auto

lemma trim_no_space: "\<forall>c \<in> set s. \<not> is_space c \<Longrightarrow> trim s = s"
proof -
  assume a: "\<forall>c \<in> set s. \<not> is_space c"
  have "dropWhile is_space s = s" using a by (cases s) auto
  moreover have "dropWhile is_space (rev s) = rev s" using a by (cases "rev s") (auto simp: in_set_conv_decomp dest: arg_cong[where f=set])
  ultimately show ?thesis by (simp add: trim_def)
qed

lemma set_trim: "set (trim s) \<subseteq> set s"
proof -
  have "set (trim s) = set (dropWhile is_space (rev (dropWhile is_space s)))"
    by (simp add: trim_def)
  also have "\<dots> \<subseteq> set (rev (dropWhile is_space s))"
    by (rule set_dropWhile_subset)
  also have "\<dots> \<subseteq> set s"
    using set_dropWhile_subset[of is_space s] by simp
  finally show ?thesis .
qed

lemma formatCardName_chars:
  "c \<in> set (formatCardName x) \<Longrightarrow> c = CHR ''-'' \<or> (kept_char c \<and> \<not> is_space c)"
proof -
  assume c: "c \<in> set (formatCardName x)"
  let ?y = "trim (strip_other (toLowerCase x))"
  from c hyphenate_set[of ?y] have "c = CHR ''-'' \<or> (c \<in> set ?y \<and> \<not> is_space c)"
    by (auto simp: formatCardName_def)
  moreover have "set ?y \<subseteq> {c. kept_char c}"
    using set_trim[of "strip_other (toLowerCase x)"] by (auto simp: strip_other_def)
  ultimately show ?thesis by auto
qed

lemma formatCardName_slug:
  "formatCardName (formatCardName x) = filter (\<lambda>c. c \<noteq> CHR ''-'') (formatCardName x)"
proof -
  define z where "z = formatCardName x"
  define w where "w = filter (\<lambda>c. c \<noteq> CHR ''-'') z"
  have chars: "\<And>c. c \<in> set z \<Longrightarrow> c = CHR ''-'' \<or> (kept_char c \<and> \<not> is_space c)"
    unfolding z_def by (rule formatCardName_chars)
  have "map toLowerCase_char z = z"
  proof (rule map_idI)
    fix c assume "c \<in> set z"
    from chars[OF this] show "toLowerCase_char c = c"
      using toLowerCase_hyphen toLowerCase_kept by blast
  qed
  then have low: "toLowerCase z = z"
    by (simp only: toLowerCase_def)
  have "filter kept_char z = filter (\<lambda>c. c \<noteq> CHR ''-'') z"
  proof (rule filter_cong[OF refl])
    fix c assume "c \<in> set z"
    from chars[OF this] show "kept_char c = (c \<noteq> CHR ''-'')"
      using kept_hyphen by blast
  qed
  then have strip: "strip_other z = w"
    by (simp only: strip_other_def w_def)
  have nosp: "\<forall>c \<in> set w. \<not> is_space c"
  proof
    fix c assume "c \<in> set w"
    then have "c \<in> set z" and "c \<noteq> CHR ''-''" by (simp_all add: w_def)
    with chars show "\<not> is_space c" by blast
  qed
  have "formatCardName z = hyphenate (trim (strip_other (toLowerCase z)))"
    by (rule formatCardName_def)
  also have "\<dots> = hyphenate (trim w)" by (simp only: low strip)
  also have "\<dots> = hyphenate w" by (simp only: trim_no_space[OF nosp])
  also have "\<dots> = w" by (rule hyphenate_no_space[OF nosp])
  finally show ?thesis by (simp only: z_def w_def)
qed

text \<open>
  Claim C2 states that the normalizer is idempotent. It is not: a hyphen that the last
  step writes is not a lower-case letter, a digit or white space, so a second pass strips
  it. What holds for every input is that the second pass returns the slug without its
  hyphens; the normalizer is therefore idempotent exactly on the inputs whose slug has no
  hyphen.
\<close>

theorem formatCardName_twice:
  "formatCardName (formatCardName x) = filter (\<lambda>c. c \<noteq> CHR ''-'') (formatCardName x)
   \<and> (formatCardName (formatCardName x) = formatCardName x \<longleftrightarrow> CHR ''-'' \<notin> set (formatCardName x))"
proof -
  have "(filter (\<lambda>c. c \<noteq> CHR ''-'') (formatCardName x) = formatCardName x)
        \<longleftrightarrow> CHR ''-'' \<notin> set (formatCardName x)"
    unfolding filter_id_conv by blast
  then show ?thesis
    by (simp only: formatCardName_slug simp_thms)
qed

text \<open>
  Claim C2 as stated fails at the name \<^verbatim>\<open>a b\<close>: its slug is \<^verbatim>\<open>a-b\<close>, and the slug of
  \<^verbatim>\<open>a-b\<close> is \<^verbatim>\<open>ab\<close>.
\<close>

theorem formatCardName_not_idempotent:
  "formatCardName ''a b'' = ''a-b''
   \<and> formatCardName (formatCardName ''a b'') = ''ab''
   \<and> formatCardName (formatCardName ''a b'') \<noteq> formatCardName ''a b''"
proof -
  have 1: "formatCardName ''a b'' = ''a-b''" by code_simp
  have 2: "formatCardName ''a-b'' = ''ab''" by code_simp
  show ?thesis by (simp add: 1 2)
qed

text \<open>The amended claim C2 at the name \<^verbatim>\<open>Sol Ring\<close>.\<close>

theorem formatCardName_twice_witness:
  "formatCardName (formatCardName ''Sol Ring'') = ''solring'' \<and> formatCardName ''Sol Ring'' = ''sol-ring''"
proof -
  have a: "formatCardName ''Sol Ring'' = ''sol-ring''" by code_simp
  from formatCardName_twice[of "''Sol Ring''"] a show ?thesis by simp
qed

text \<open>
  Claim C7: \<^verbatim>\<open>formatCardName("Birgi, God of Storytelling")\<close> is
  \<^verbatim>\<open>"birgi-god-of-storytelling"\<close> and \<^verbatim>\<open>formatCardName("  Dockside   Extortionist!! ")\<close>
  is \<^verbatim>\<open>"dockside-extortionist"\<close>. The normalizer reads nothing but its argument (it is a
  function of the string alone, with no state and no clock), so it is pure and
  deterministic.
\<close>

theorem formatCardName_examples:
  "formatCardName ''Birgi, God of Storytelling'' = ''birgi-god-of-storytelling''
   \<and> formatCardName ''  Dockside   Extortionist!! '' = ''dockside-extortionist''"
  by code_simp

section \<open>Properties of the expiring cache\<close>

text \<open>
  Claim C6: \<^verbatim>\<open>set(k, v)\<close> followed by \<^verbatim>\<open>get(k)\<close> returns \<open>v\<close>, also for \<open>v = null\<close>, as long
  as the clock has not advanced by more than the time-to-live between the two (with the
  default cache this covers a \<^verbatim>\<open>get\<close> at the same clock reading); \<^verbatim>\<open>get\<close> returns \<^verbatim>\<open>null\<close>
  for a key that was never set, leaving the cache as it is, and for an entry whose age
  strictly exceeds the time-to-live, deleting that entry; the default time-to-live is one
  hour in milliseconds.
\<close>

theorem TTLCache_set_get:
  "(now' - now \<le> ttl c \<longrightarrow> fst (TTLCache_get now' k (TTLCache_set now k v c)) = v)
   \<and> fst (TTLCache_get now k (TTLCache_set now k v (TTLCache_new 1))) = v
   \<and> (cache c k = None \<longrightarrow> TTLCache_get now k c = (None, c))
   \<and> (cache c k = Some it \<and> now - timestamp it > ttl c \<longrightarrow>
        fst (TTLCache_get now k c) = None
        \<and> cache (snd (TTLCache_get now k c)) = (cache c)(k := None))
   \<and> ttl (TTLCache_new 1 :: ('k, 'v) TTLCache) = 60 * 60 * 1000"
  by (simp add: TTLCache_get_def TTLCache_set_def TTLCache_new_def)

text \<open>
  Claim C6 on the default cache: a \<^verbatim>\<open>null\<close> stored at time 0 and read at time 5, a key
  that was never set, and an entry stored at time 0 and read one millisecond after the
  hour.
\<close>

theorem TTLCache_set_get_witness:
  "(5 :: int) - 0 \<le> ttl (TTLCache_new 1 :: (string, nat) TTLCache)
   \<and> fst (TTLCache_get 5 ''k'' (TTLCache_set 0 ''k'' (None :: nat option) (TTLCache_new 1))) = None
   \<and> cache (TTLCache_new 1 :: (string, nat) TTLCache) ''k'' = None
   \<and> TTLCache_get 5 ''k'' (TTLCache_new 1 :: (string, nat) TTLCache) = (None, TTLCache_new 1)
   \<and> cache (TTLCache_set 0 ''k'' (Some (7 :: nat)) (TTLCache_new 1)) ''k'' = Some \<lparr>val = Some 7, timestamp = 0\<rparr>
   \<and> (3600001 :: int) - timestamp \<lparr>val = Some (7 :: nat), timestamp = 0\<rparr> > ttl (TTLCache_set 0 ''k'' (Some (7 :: nat)) (TTLCache_new 1))
   \<and> fst (TTLCache_get 3600001 ''k'' (TTLCache_set 0 ''k'' (Some (7 :: nat)) (TTLCache_new 1))) = None
   \<and> cache (snd (TTLCache_get 3600001 ''k'' (TTLCache_set 0 ''k'' (Some (7 :: nat)) (TTLCache_new 1)))) ''k'' = None"
proof -
  have h1: "(5 :: int) - 0 \<le> ttl (TTLCache_new 1 :: (string, nat) TTLCache)"
    by (simp add: TTLCache_new_def)
  have h2: "cache (TTLCache_new 1 :: (string, nat) TTLCache) ''k'' = None"
    by (simp add: TTLCache_new_def)
  have h3: "cache (TTLCache_set 0 ''k'' (Some (7 :: nat)) (TTLCache_new 1)) ''k'' = Some \<lparr>val = Some 7, timestamp = 0\<rparr>"
    by (simp add: TTLCache_set_def)
  have h4: "(3600001 :: int) - timestamp \<lparr>val = Some (7 :: nat), timestamp = 0\<rparr> > ttl (TTLCache_set 0 ''k'' (Some (7 :: nat)) (TTLCache_new 1))"
    by (simp add: TTLCache_set_def TTLCache_new_def)
  note a = TTLCache_set_get[where now' = 5 and now = 0 and k = "''k''" and v = "None"
      and c = "TTLCache_new 1 :: (string, nat) TTLCache" and it = "\<lparr>val = None, timestamp = 0\<rparr>"]
  note b = TTLCache_set_get[where now' = 5 and now = 5 and k = "''k''" and v = "Some 7"
      and c = "TTLCache_new 1 :: (string, nat) TTLCache" and it = "\<lparr>val = None, timestamp = 0\<rparr>"]
  note c = TTLCache_set_get[where now' = 0 and v = None and now = 3600001 and k = "''k''"
      and c = "TTLCache_set 0 ''k'' (Some (7 :: nat)) (TTLCache_new 1)"
      and it = "\<lparr>val = Some (7 :: nat), timestamp = 0\<rparr>"]
  from a h1 have a1: "fst (TTLCache_get 5 ''k'' (TTLCache_set 0 ''k'' (None :: nat option) (TTLCache_new 1))) = None"
    by blast
  from b h2 have b1: "TTLCache_get 5 ''k'' (TTLCache_new 1 :: (string, nat) TTLCache) = (None, TTLCache_new 1)"
    by blast
  from c h3 h4 have c1: "fst (TTLCache_get 3600001 ''k'' (TTLCache_set 0 ''k'' (Some (7 :: nat)) (TTLCache_new 1))) = None"
    and c2: "cache (snd (TTLCache_get 3600001 ''k'' (TTLCache_set 0 ''k'' (Some (7 :: nat)) (TTLCache_new 1))))
              = (cache (TTLCache_set 0 ''k'' (Some (7 :: nat)) (TTLCache_new 1)))(''k'' := None)"
    by blast+
  have c3: "cache (snd (TTLCache_get 3600001 ''k'' (TTLCache_set 0 ''k'' (Some (7 :: nat)) (TTLCache_new 1)))) ''k'' = None"
    by (simp only: c2 fun_upd_same)
  show ?thesis
    using h1 h2 h3 h4 a1 b1 c1 c3 by blast
qed

text \<open>
  Claim C9: \<^verbatim>\<open>get(k)\<close> after \<^verbatim>\<open>set(k, null)\<close> returns \<^verbatim>\<open>null\<close> at every later clock reading,
  which is what \<^verbatim>\<open>get(k)\<close> returns on a cache without an entry for \<open>k\<close> (any cache with
  the entry deleted, and the new cache), although the map does hold an entry with a
  timestamp for \<open>k\<close>.
\<close>

theorem TTLCache_null_like_absent:
  "fst (TTLCache_get now' k (TTLCache_set now k None c)) = None
   \<and> fst (TTLCache_get now' k (c\<lparr>cache := (cache c)(k := None)\<rparr>)) = None
   \<and> fst (TTLCache_get now' k (TTLCache_new h)) = None
   \<and> cache (TTLCache_set now k None c) k = Some \<lparr>val = None, timestamp = now\<rparr>"
  by (simp add: TTLCache_get_def TTLCache_set_def TTLCache_new_def)

section \<open>Properties of the combo fetcher\<close>

lemma cache_inv_get: "cache_inv c \<Longrightarrow> cache_inv (snd (TTLCache_get t k c))"
  by (auto simp: cache_inv_def TTLCache_get_def split: option.splits if_splits)

lemma cache_inv_set: "cache_inv c \<Longrightarrow> v \<noteq> Some [] \<Longrightarrow> cache_inv (TTLCache_set t k v c)"
  by (auto simp: cache_inv_def TTLCache_set_def)

lemma cache_inv_new: "cache_inv (TTLCache_new h)"
  by (simp add: cache_inv_def TTLCache_new_def)

lemma on_response_inv:
  "cache_inv (ttlcache s) \<Longrightarrow> cache_inv (ttlcache (snd (on_response t r n f s)))"
  by (auto simp: on_response_def Let_def intro!: cache_inv_set split: response.splits body.splits sum.splits)

lemma on_response_result: "fst (on_response t r n f s) \<noteq> Some []"
  by (auto simp: on_response_def Let_def split: response.splits body.splits sum.splits)

lemma get_result_inv: "cache_inv c \<Longrightarrow> fst (TTLCache_get t k c) \<noteq> Some []"
  by (auto simp: cache_inv_def TTLCache_get_def split: option.splits if_splits)

text \<open>
  Claim C3: the invariant that no cache entry holds an empty array holds of the initial
  cache, and \<^verbatim>\<open>fetchComboData\<close> (the only function that writes the cache, through
  \<^verbatim>\<open>cache.set\<close> and through the deletion in \<^verbatim>\<open>cache.get\<close>) keeps it, for every clock, every
  answer of the network and every card name; nor does it ever return an empty array, since
  an empty filtered list is replaced by \<^verbatim>\<open>null\<close> before it is stored and returned.
\<close>

theorem fetchComboData_cache_inv:
  "cache_inv (ttlcache initial_state)
   \<and> (cache_inv (ttlcache s) \<longrightarrow>
        cache_inv (ttlcache (snd (fetchComboData t_get t_set resp cardName s)))
        \<and> fst (fetchComboData t_get t_set resp cardName s) \<noteq> Some [])"
proof -
  have init: "cache_inv (ttlcache initial_state)"
    by (simp add: initial_state_def cache_inv_new)
  have step: "cache_inv (ttlcache (snd (fetchComboData t_get t_set resp cardName s)))
        \<and> fst (fetchComboData t_get t_set resp cardName s) \<noteq> Some []"
    if inv: "cache_inv (ttlcache s)"
  proof -
    obtain cachedData c1 where g: "TTLCache_get t_get cardName (ttlcache s) = (cachedData, c1)"
      by (cases "TTLCache_get t_get cardName (ttlcache s)")
    from cache_inv_get[OF inv, of t_get cardName] g have inv1: "cache_inv c1" by simp
    from get_result_inv[OF inv, of t_get cardName] g have res1: "cachedData \<noteq> Some []" by simp
    show ?thesis
    proof (cases cachedData)
      case None
      let ?s2 = "s\<lparr>ttlcache := c1, requests := requests s @ [''https://json.edhrec.com/pages/combos/'' @ formatCardName cardName @ ''.json'']\<rparr>"
      have eq: "fetchComboData t_get t_set resp cardName s
                 = on_response t_set resp cardName (formatCardName cardName) ?s2"
        using g None by (simp add: fetchComboData_def Let_def)
      have "cache_inv (ttlcache ?s2)" using inv1 by simp
      from on_response_inv[OF this] on_response_result show ?thesis
        unfolding eq by blast
    next
      case (Some d)
      with g inv1 res1 show ?thesis by (simp add: fetchComboData_def)
    qed
  qed
  from init step show ?thesis by blast
qed


text \<open>
  Claim C3 at a successful response without combo groups: the entry written for the card
  holds \<^verbatim>\<open>null\<close>.
\<close>

theorem fetchComboData_cache_inv_witness:
  "cache_inv (ttlcache initial_state)
   \<and> cache_inv (ttlcache (snd (fetchComboData 0 1 (Response 200 (Parsed (Some []))) ''x'' initial_state)))
   \<and> fst (fetchComboData 0 1 (Response 200 (Parsed (Some []))) ''x'' initial_state) = None
   \<and> cache (ttlcache (snd (fetchComboData 0 1 (Response 200 (Parsed (Some []))) ''x'' initial_state))) ''x''
       = Some \<lparr>val = None, timestamp = 1\<rparr>"
proof -
  note t = fetchComboData_cache_inv[where s = initial_state and t_get = 0 and t_set = 1
      and resp = "Response 200 (Parsed (Some []))" and cardName = "''x''"]
  have r: "fst (fetchComboData 0 1 (Response 200 (Parsed (Some []))) ''x'' initial_state) = None"
    by (simp add: fetchComboData_def on_response_def initial_state_def TTLCache_new_def
        TTLCache_get_def TTLCache_set_def response_ok_def)
  have c: "cache (ttlcache (snd (fetchComboData 0 1 (Response 200 (Parsed (Some []))) ''x'' initial_state))) ''x''
       = Some \<lparr>val = None, timestamp = 1\<rparr>"
    by (simp add: fetchComboData_def on_response_def initial_state_def TTLCache_new_def
        TTLCache_get_def TTLCache_set_def response_ok_def)
  from t r c show ?thesis by blast
qed

text \<open>
  Claim C1 expects a cached \<^verbatim>\<open>null\<close> to be returned without a network request, so that
  two calls for one name after an HTTP 403 make one request. The code stores the \<^verbatim>\<open>null\<close>
  but tests the cached value for truthiness, so the second call cannot tell the stored
  \<^verbatim>\<open>null\<close> from a miss: starting from the initial state, two calls for \<^verbatim>\<open>x\<close>, one second
  apart and both answered with 403, return \<^verbatim>\<open>null\<close> and make two requests.
\<close>

theorem fetchComboData_403_fetches_twice:
  "fst (fetchComboData 0 5 (Response 403 Unparsable) ''x'' initial_state) = None
   \<and> cache (ttlcache (snd (fetchComboData 0 5 (Response 403 Unparsable) ''x'' initial_state))) ''x''
       = Some \<lparr>val = None, timestamp = 5\<rparr>
   \<and> fst (fetchComboData 1000 1005 (Response 403 Unparsable) ''x''
         (snd (fetchComboData 0 5 (Response 403 Unparsable) ''x'' initial_state))) = None
   \<and> requests (snd (fetchComboData 1000 1005 (Response 403 Unparsable) ''x''
         (snd (fetchComboData 0 5 (Response 403 Unparsable) ''x'' initial_state))))
       = [''https://json.edhrec.com/pages/combos/x.json'', ''https://json.edhrec.com/pages/combos/x.json'']"
proof -
  have f: "formatCardName ''x'' = ''x''" by code_simp
  show ?thesis
    by (simp add: fetchComboData_def on_response_def initial_state_def TTLCache_new_def
        TTLCache_get_def TTLCache_set_def response_ok_def f)
qed

lemma get_miss_again:
  "fst (TTLCache_get t k c) = None \<Longrightarrow> fst (TTLCache_get t' k (snd (TTLCache_get t k c))) = None"
  by (auto simp: TTLCache_get_def split: option.splits if_splits)

lemma get_set_None: "fst (TTLCache_get t' k (TTLCache_set t k None c)) = None"
  by (simp add: TTLCache_get_def TTLCache_set_def)

lemma fetchComboData_miss:
  "fst (TTLCache_get t_get cardName (ttlcache s)) = None \<Longrightarrow>
   fetchComboData t_get t_set resp cardName s =
     on_response t_set resp cardName (formatCardName cardName)
       (s\<lparr>ttlcache := snd (TTLCache_get t_get cardName (ttlcache s)),
          requests := requests s @ [''https://json.edhrec.com/pages/combos/'' @ formatCardName cardName @ ''.json'']\<rparr>)"
  by (cases "TTLCache_get t_get cardName (ttlcache s)") (simp add: fetchComboData_def Let_def)

lemma on_response_requests: "requests (snd (on_response t r n f s)) = requests s"
  by (auto simp: on_response_def Let_def split: response.splits body.splits sum.splits)

lemma on_response_http_error:
  "\<not> response_ok status \<Longrightarrow>
   on_response t (Response status b) n f s =
     (None, if status = 403 then s\<lparr>ttlcache := TTLCache_set t n None (ttlcache s)\<rparr> else s)"
  by (simp add: on_response_def)

lemma get_miss_cache:
  "cache (snd (TTLCache_get t k c)) =
     (case cache c k of
        None \<Rightarrow> cache c
      | Some it \<Rightarrow> if t - timestamp it > ttl c then (cache c)(k := None) else cache c)"
  by (simp add: TTLCache_get_def split: option.splits)

lemma get_ttl: "ttl (snd (TTLCache_get t k c)) = ttl c"
  by (simp add: TTLCache_get_def split: option.splits)

lemma get_as_update:
  "snd (TTLCache_get t k c) = c\<lparr>cache := cache (snd (TTLCache_get t k c))\<rparr>"
  by (simp add: TTLCache_get_def split: option.splits)

text \<open>
  Claim C4 says that a non-success response other than 403 leaves the cache unchanged.
  The response handling writes nothing then, but the lookup that precedes the request
  has deleted an expired entry of the name, so the cache after the call can differ from
  the cache before it. What holds, when the lookup misses and the network answers with a
  status outside 200 to 299: \<^verbatim>\<open>fetchComboData\<close> returns \<^verbatim>\<open>null\<close>; the cache after the call is
  the cache before it with an expired entry of the name deleted and, if and only if the
  status is 403, the entry \<^verbatim>\<open>{value: null, timestamp}\<close> written for the name at the time of
  the write. For any other status nothing is added (every entry after the call was there
  before it), and the cache is the one before the call exactly when the name had no
  expired entry. One request is made, and a later call for the same name, at any time and
  whatever the network then answers, makes a second request to the same URL (this also
  holds after a 403).
\<close>

theorem fetchComboData_http_error:
  assumes miss: "fst (TTLCache_get t_get cardName (ttlcache s)) = None"
    and fail: "\<not> response_ok status"
  shows "fst (fetchComboData t_get t_set (Response status b) cardName s) = None
    \<and> ttlcache (snd (fetchComboData t_get t_set (Response status b) cardName s))
        = (ttlcache s)\<lparr>cache :=
            (let kept = (case cache (ttlcache s) cardName of
                           None \<Rightarrow> cache (ttlcache s)
                         | Some it \<Rightarrow>
                             if t_get - timestamp it > ttl (ttlcache s)
                             then (cache (ttlcache s))(cardName := None)
                             else cache (ttlcache s))
             in if status = 403
                then kept(cardName \<mapsto> \<lparr>val = None, timestamp = t_set\<rparr>)
                else kept)\<rparr>
    \<and> (if status = 403
        then cache (ttlcache (snd (fetchComboData t_get t_set (Response status b) cardName s))) cardName
               = Some \<lparr>val = None, timestamp = t_set\<rparr>
        else cache (ttlcache (snd (fetchComboData t_get t_set (Response status b) cardName s)))
               \<subseteq>\<^sub>m cache (ttlcache s)
             \<and> ((ttlcache (snd (fetchComboData t_get t_set (Response status b) cardName s)) = ttlcache s)
                  = (case cache (ttlcache s) cardName of
                       None \<Rightarrow> True
                     | Some it \<Rightarrow> t_get - timestamp it \<le> ttl (ttlcache s))))
    \<and> requests (snd (fetchComboData t_get t_set (Response status b) cardName s))
        = requests s @ [''https://json.edhrec.com/pages/combos/'' @ formatCardName cardName @ ''.json'']
    \<and> requests (snd (fetchComboData t_get' t_set' resp' cardName
          (snd (fetchComboData t_get t_set (Response status b) cardName s))))
        = requests s @ [''https://json.edhrec.com/pages/combos/'' @ formatCardName cardName @ ''.json'',
                        ''https://json.edhrec.com/pages/combos/'' @ formatCardName cardName @ ''.json'']"
proof -
  let ?url = "''https://json.edhrec.com/pages/combos/'' @ formatCardName cardName @ ''.json''"
  let ?c = "ttlcache s"
  let ?c1 = "snd (TTLCache_get t_get cardName ?c)"
  let ?kept = "case cache ?c cardName of
                 None \<Rightarrow> cache ?c
               | Some it \<Rightarrow> if t_get - timestamp it > ttl ?c
                            then (cache ?c)(cardName := None) else cache ?c"
  let ?s2 = "s\<lparr>ttlcache := ?c1, requests := requests s @ [?url]\<rparr>"
  let ?s3 = "snd (fetchComboData t_get t_set (Response status b) cardName s)"
  have c1: "?c1 = ?c\<lparr>cache := ?kept\<rparr>"
    using get_as_update[of t_get cardName ?c] by (simp only: get_miss_cache)
  have first: "fetchComboData t_get t_set (Response status b) cardName s
      = (None, if status = 403 then ?s2\<lparr>ttlcache := TTLCache_set t_set cardName None ?c1\<rparr> else ?s2)"
    by (simp add: fetchComboData_miss[OF miss] on_response_http_error[OF fail])
  have res: "fst (fetchComboData t_get t_set (Response status b) cardName s) = None"
    by (simp add: first)
  have cache3: "ttlcache ?s3 = (if status = 403 then TTLCache_set t_set cardName None ?c1 else ?c1)"
    by (simp add: first)
  have whole: "ttlcache ?s3 = ?c\<lparr>cache :=
      (let kept = ?kept
       in if status = 403 then kept(cardName \<mapsto> \<lparr>val = None, timestamp = t_set\<rparr>) else kept)\<rparr>"
  proof (cases "status = 403")
    case True
    have "TTLCache_set t_set cardName None ?c1
        = ?c\<lparr>cache := ?kept(cardName \<mapsto> \<lparr>val = None, timestamp = t_set\<rparr>)\<rparr>"
      by (subst c1) (simp add: TTLCache_set_def)
    with True cache3 show ?thesis by (simp add: Let_def)
  next
    case False
    with cache3 c1 show ?thesis by (simp add: Let_def)
  qed
  have written: "cache (ttlcache ?s3) cardName = Some \<lparr>val = None, timestamp = t_set\<rparr>"
    if "status = 403"
    unfolding whole by (simp add: that Let_def)
  have sub: "cache (ttlcache ?s3) \<subseteq>\<^sub>m cache ?c" if "status \<noteq> 403"
    unfolding whole by (auto simp: that Let_def map_le_def split: option.splits if_splits)
  have same: "(ttlcache ?s3 = ?c)
      = (case cache ?c cardName of None \<Rightarrow> True | Some it \<Rightarrow> t_get - timestamp it \<le> ttl ?c)"
    if ne: "status \<noteq> 403"
  proof (cases "cache ?c cardName")
    case None
    then show ?thesis unfolding whole by (simp add: ne Let_def)
  next
    case (Some it)
    show ?thesis
    proof (cases "t_get - timestamp it > ttl ?c")
      case True
      have "cache (ttlcache ?s3) cardName = None"
        unfolding whole by (simp add: ne Some True Let_def)
      with Some have "ttlcache ?s3 \<noteq> ?c" by auto
      with Some True show ?thesis by simp
    next
      case False
      with Some show ?thesis unfolding whole by (simp add: ne Let_def)
    qed
  qed
  have req3: "requests ?s3 = requests s @ [?url]"
    by (simp add: first)
  have miss3: "fst (TTLCache_get t_get' cardName (ttlcache ?s3)) = None"
    unfolding cache3 by (simp add: get_miss_again[OF miss] get_set_None)
  have "requests (snd (fetchComboData t_get' t_set' resp' cardName ?s3)) = requests ?s3 @ [?url]"
    by (simp add: fetchComboData_miss[OF miss3] on_response_requests)
  with req3 have again: "requests (snd (fetchComboData t_get' t_set' resp' cardName ?s3))
      = requests s @ [?url, ?url]"
    by simp
  have third: "if status = 403
        then cache (ttlcache ?s3) cardName = Some \<lparr>val = None, timestamp = t_set\<rparr>
        else cache (ttlcache ?s3) \<subseteq>\<^sub>m cache ?c
             \<and> ((ttlcache ?s3 = ?c)
                  = (case cache ?c cardName of
                       None \<Rightarrow> True
                     | Some it \<Rightarrow> t_get - timestamp it \<le> ttl ?c))"
    using written sub same by simp
  from res whole third req3 again show ?thesis by blast
qed


text \<open>
  The amended claim C4 from the initial state, for the name \<^verbatim>\<open>x\<close>: a 403 writes the
  \<^verbatim>\<open>null\<close> entry, a 500 leaves the cache as it was, and the call after the 500 asks the
  network again.
\<close>

theorem fetchComboData_http_error_witness:
  "fst (TTLCache_get 0 ''x'' (ttlcache initial_state)) = None
   \<and> \<not> response_ok 403 \<and> \<not> response_ok 500
   \<and> fst (fetchComboData 0 5 (Response 403 Unparsable) ''x'' initial_state) = None
   \<and> cache (ttlcache (snd (fetchComboData 0 5 (Response 403 Unparsable) ''x'' initial_state))) ''x''
       = Some \<lparr>val = None, timestamp = 5\<rparr>
   \<and> fst (fetchComboData 0 5 (Response 500 Unparsable) ''x'' initial_state) = None
   \<and> ttlcache (snd (fetchComboData 0 5 (Response 500 Unparsable) ''x'' initial_state))
       = ttlcache initial_state
   \<and> requests (snd (fetchComboData 10 15 (Response 500 Unparsable) ''x''
         (snd (fetchComboData 0 5 (Response 500 Unparsable) ''x'' initial_state))))
       = [''https://json.edhrec.com/pages/combos/x.json'', ''https://json.edhrec.com/pages/combos/x.json'']"
proof -
  have miss: "fst (TTLCache_get 0 ''x'' (ttlcache initial_state)) = None"
    by (simp add: TTLCache_get_def initial_state_def TTLCache_new_def)
  have fail403: "\<not> response_ok 403" and fail500: "\<not> response_ok 500"
    by (simp_all add: response_ok_def)
  have absent: "cache (ttlcache initial_state) ''x'' = None"
    by (simp add: initial_state_def TTLCache_new_def)
  have f: "formatCardName ''x'' = ''x''" by code_simp
  have nil: "requests initial_state = []"
    by (simp add: initial_state_def)
  note t403 = fetchComboData_http_error[OF miss fail403, where b = Unparsable and t_set = 5
      and t_get' = 10 and t_set' = 15 and resp' = "Response 500 Unparsable"]
  note t500 = fetchComboData_http_error[OF miss fail500, where b = Unparsable and t_set = 5
      and t_get' = 10 and t_set' = 15 and resp' = "Response 500 Unparsable"]
  have a1: "fst (fetchComboData 0 5 (Response 403 Unparsable) ''x'' initial_state) = None"
    using t403[THEN conjunct1] .
  have a2: "cache (ttlcache (snd (fetchComboData 0 5 (Response 403 Unparsable) ''x'' initial_state))) ''x''
       = Some \<lparr>val = None, timestamp = 5\<rparr>"
    using t403[THEN conjunct2, THEN conjunct2, THEN conjunct1] by simp
  have b1: "fst (fetchComboData 0 5 (Response 500 Unparsable) ''x'' initial_state) = None"
    using t500[THEN conjunct1] .
  have b2: "ttlcache (snd (fetchComboData 0 5 (Response 500 Unparsable) ''x'' initial_state))
       = ttlcache initial_state"
    using t500[THEN conjunct2, THEN conjunct2, THEN conjunct1] by (simp add: absent)
  have b3: "requests (snd (fetchComboData 10 15 (Response 500 Unparsable) ''x''
         (snd (fetchComboData 0 5 (Response 500 Unparsable) ''x'' initial_state))))
       = [''https://json.edhrec.com/pages/combos/x.json'', ''https://json.edhrec.com/pages/combos/x.json'']"
    using t500[THEN conjunct2, THEN conjunct2, THEN conjunct2, THEN conjunct2] by (simp add: f nil)
  from miss fail403 fail500 a1 a2 b1 b2 b3 show ?thesis by blast
qed

text \<open>
  Claim C4 as stated fails when an entry of the name has expired: a successful call at
  time 0 stores a combo for \<^verbatim>\<open>x\<close>; a call more than an hour later that is answered with
  status 500 returns \<^verbatim>\<open>null\<close> and leaves a cache without that entry, which is not the cache
  before the call.
\<close>

theorem fetchComboData_http_error_purges:
  "cache (ttlcache (snd (fetchComboData 0 1
       (Response 200 (Parsed (Some [\<lparr>json_header = Some ''x'', json_href = ''/c'',
                                     json_cardviews = None, json_results = None\<rparr>])))
       ''x'' initial_state))) ''x''
     = Some \<lparr>val = Some [\<lparr>header = Some ''x'', href = ''/c'', results = []\<rparr>], timestamp = 1\<rparr>
   \<and> fst (fetchComboData 3600002 3600003 (Response 500 Unparsable) ''x''
        (snd (fetchComboData 0 1
          (Response 200 (Parsed (Some [\<lparr>json_header = Some ''x'', json_href = ''/c'',
                                        json_cardviews = None, json_results = None\<rparr>])))
          ''x'' initial_state))) = None
   \<and> cache (ttlcache (snd (fetchComboData 3600002 3600003 (Response 500 Unparsable) ''x''
        (snd (fetchComboData 0 1
          (Response 200 (Parsed (Some [\<lparr>json_header = Some ''x'', json_href = ''/c'',
                                        json_cardviews = None, json_results = None\<rparr>])))
          ''x'' initial_state))))) ''x''
     = None
   \<and> ttlcache (snd (fetchComboData 3600002 3600003 (Response 500 Unparsable) ''x''
        (snd (fetchComboData 0 1
          (Response 200 (Parsed (Some [\<lparr>json_header = Some ''x'', json_href = ''/c'',
                                        json_cardviews = None, json_results = None\<rparr>])))
          ''x'' initial_state))))
     \<noteq> ttlcache (snd (fetchComboData 0 1
          (Response 200 (Parsed (Some [\<lparr>json_header = Some ''x'', json_href = ''/c'',
                                        json_cardviews = None, json_results = None\<rparr>])))
          ''x'' initial_state))"
proof -
  define s1 where "s1 = snd (fetchComboData 0 1
       (Response 200 (Parsed (Some [\<lparr>json_header = Some ''x'', json_href = ''/c'',
                                     json_cardviews = None, json_results = None\<rparr>])))
       ''x'' initial_state)"
  define s2 where "s2 = snd (fetchComboData 3600002 3600003 (Response 500 Unparsable) ''x'' s1)"
  have f: "formatCardName ''x'' = ''x''" by code_simp
  have c1: "ttlcache s1 = \<lparr>ttl = 3600000,
      cache = [''x'' \<mapsto> \<lparr>val = Some [\<lparr>header = Some ''x'', href = ''/c'', results = []\<rparr>], timestamp = 1\<rparr>]\<rparr>"
    by (simp add: s1_def fetchComboData_def on_response_def initial_state_def TTLCache_new_def
        TTLCache_get_def TTLCache_set_def response_ok_def combo_matches_def to_combo_def f Let_def)
  have e1: "cache (ttlcache s1) ''x''
     = Some \<lparr>val = Some [\<lparr>header = Some ''x'', href = ''/c'', results = []\<rparr>], timestamp = 1\<rparr>"
    by (simp add: c1)
  have r2: "fst (fetchComboData 3600002 3600003 (Response 500 Unparsable) ''x'' s1) = None"
    by (simp add: fetchComboData_def on_response_def TTLCache_get_def response_ok_def c1)
  have e2: "cache (ttlcache s2) ''x'' = None"
    by (simp add: s2_def fetchComboData_def on_response_def TTLCache_get_def response_ok_def c1)
  from e1 e2 have ne: "ttlcache s2 \<noteq> ttlcache s1" by auto
  from e1 r2 e2 ne show ?thesis
    unfolding s2_def s1_def by blast
qed

lemma string_includes_iff:
  "string_includes h n \<longleftrightarrow> (\<exists>ps ss. h = ps @ n @ ss)"
proof (induction h)
  case Nil
  show ?case by auto
next
  case (Cons c cs)
  show ?case
  proof
    assume "string_includes (c # cs) n"
    then consider "take (length n) (c # cs) = n" | "string_includes cs n" by auto
    then show "\<exists>ps ss. c # cs = ps @ n @ ss"
    proof cases
      case 1
      then have "c # cs = [] @ n @ drop (length n) (c # cs)"
        by (metis append_Nil append_take_drop_id)
      then show ?thesis by blast
    next
      case 2
      with Cons.IH obtain ps ss where "cs = ps @ n @ ss" by blast
      then have "c # cs = (c # ps) @ n @ ss" by simp
      then show ?thesis by blast
    qed
  next
    assume "\<exists>ps ss. c # cs = ps @ n @ ss"
    then obtain ps ss where e: "c # cs = ps @ n @ ss" by blast
    show "string_includes (c # cs) n"
    proof (cases ps)
      case Nil
      with e have "take (length n) (c # cs) = n" by simp
      then show ?thesis by simp
    next
      case (Cons p ps')
      with e have "cs = ps' @ n @ ss" by simp
      with Cons.IH have "string_includes cs n" by blast
      then show ?thesis by simp
    qed
  qed
qed

lemma filter_throwing_total:
  "(\<And>x. x \<in> set xs \<Longrightarrow> p x = Inr (q x)) \<Longrightarrow> filter_throwing p xs = Inr (filter q xs)"
  by (induction xs) auto

lemma combo_matches_header:
  "json_header g = Some h \<Longrightarrow>
   combo_matches n f g =
     Inr ((\<exists>cvs. json_cardviews g = Some cvs \<and> (\<exists>cv \<in> set cvs. sanitized cv = f))
          \<or> (\<exists>ps ss. h = ps @ n @ ss))"
  by (auto simp: combo_matches_def list_ex_iff string_includes_iff split: option.splits)

text \<open>
  Claim C5: when the lookup misses, the response is a success, its body parses (\<open>groups\<close>
  are its combo groups, none when the path to them is missing) and every combo group
  has a header, the groups that are kept are exactly those that have a
  \<^verbatim>\<open>cardviews\<close> list with an entry whose \<^verbatim>\<open>sanitized\<close> is the slug of the queried name, or
  whose header contains the raw name as a substring; each kept group becomes the record of
  its header, its href and its results (no results when \<^verbatim>\<open>combo.results\<close> is missing), in
  the order of the body; the function returns these records, or \<^verbatim>\<open>null\<close> when there are
  none.
\<close>

theorem fetchComboData_filter:
  assumes miss: "fst (TTLCache_get t_get cardName (ttlcache s)) = None"
    and ok: "response_ok status"
    and groups: "groups = (case cardlists of None \<Rightarrow> [] | Some l \<Rightarrow> l)"
    and headers: "\<forall>g \<in> set groups. json_header g \<noteq> None"
  shows "fst (fetchComboData t_get t_set (Response status (Parsed cardlists)) cardName s) =
     (let kept = filter (\<lambda>g.
            (\<exists>cvs. json_cardviews g = Some cvs
                 \<and> (\<exists>cv \<in> set cvs. sanitized cv = formatCardName cardName))
            \<or> (\<exists>h ps ss. json_header g = Some h \<and> h = ps @ cardName @ ss)) groups;
          records = map (\<lambda>g. \<lparr>header = json_header g, href = json_href g,
                                 results = (case json_results g of None \<Rightarrow> [] | Some r \<Rightarrow> r)\<rparr>) kept
      in if records = [] then None else Some records)"
proof -
  let ?q = "\<lambda>g. (\<exists>cvs. json_cardviews g = Some cvs
                 \<and> (\<exists>cv \<in> set cvs. sanitized cv = formatCardName cardName))
            \<or> (\<exists>h ps ss. json_header g = Some h \<and> h = ps @ cardName @ ss)"
  have "filter_throwing (combo_matches cardName (formatCardName cardName)) groups
        = Inr (filter ?q groups)"
  proof (rule filter_throwing_total)
    fix g assume "g \<in> set groups"
    with headers obtain h where h: "json_header g = Some h" by auto
    show "combo_matches cardName (formatCardName cardName) g = Inr (?q g)"
      by (simp add: combo_matches_header[OF h] h)
  qed
  then show ?thesis
    using ok by (simp add: fetchComboData_miss[OF miss] on_response_def Let_def to_combo_def
        groups[symmetric])
qed


text \<open>
  Claim C5 for the name \<^verbatim>\<open>Sol Ring\<close>: a group with a matching card view is kept, a group
  without card views whose header does not contain the name is dropped, and a group
  without a matching card view whose header contains the name is kept.
\<close>

theorem fetchComboData_filter_witness:
  "fst (TTLCache_get 0 ''Sol Ring'' (ttlcache initial_state)) = None
   \<and> response_ok 200
   \<and> list_all (\<lambda>g. json_header g \<noteq> None)
        [\<lparr>json_header = Some ''A'', json_href = ''/combos/1'',
          json_cardviews = Some [\<lparr>sanitized = ''sol-ring''\<rparr>], json_results = Some [''Mana'']\<rparr>,
         \<lparr>json_header = Some ''B'', json_href = ''/combos/2'',
          json_cardviews = None, json_results = None\<rparr>,
         \<lparr>json_header = Some ''A Sol Ring'', json_href = ''/combos/3'',
          json_cardviews = Some [], json_results = None\<rparr>]
   \<and> fst (fetchComboData 0 5 (Response 200 (Parsed (Some
        [\<lparr>json_header = Some ''A'', json_href = ''/combos/1'',
          json_cardviews = Some [\<lparr>sanitized = ''sol-ring''\<rparr>], json_results = Some [''Mana'']\<rparr>,
         \<lparr>json_header = Some ''B'', json_href = ''/combos/2'',
          json_cardviews = None, json_results = None\<rparr>,
         \<lparr>json_header = Some ''A Sol Ring'', json_href = ''/combos/3'',
          json_cardviews = Some [], json_results = None\<rparr>]))) ''Sol Ring'' initial_state)
       = Some [\<lparr>header = Some ''A'', href = ''/combos/1'', results = [''Mana'']\<rparr>,
               \<lparr>header = Some ''A Sol Ring'', href = ''/combos/3'', results = []\<rparr>]"
proof -
  define g1 where "g1 = \<lparr>json_header = Some ''A'', json_href = ''/combos/1'',
          json_cardviews = Some [\<lparr>sanitized = ''sol-ring''\<rparr>], json_results = Some [''Mana'']\<rparr>"
  define g2 where "g2 = \<lparr>json_header = Some ''B'', json_href = ''/combos/2'',
          json_cardviews = None, json_results = (None :: string list option)\<rparr>"
  define g3 where "g3 = \<lparr>json_header = Some ''A Sol Ring'', json_href = ''/combos/3'',
          json_cardviews = Some [], json_results = (None :: string list option)\<rparr>"
  have miss: "fst (TTLCache_get 0 ''Sol Ring'' (ttlcache initial_state)) = None"
    by (simp add: TTLCache_get_def initial_state_def TTLCache_new_def)
  have ok: "response_ok 200"
    by (simp add: response_ok_def)
  have groups: "[g1, g2, g3] = (case Some [g1, g2, g3] of None \<Rightarrow> [] | Some l \<Rightarrow> l)"
    by simp
  have headers: "\<forall>g \<in> set [g1, g2, g3]. json_header g \<noteq> None"
    by (simp add: g1_def g2_def g3_def)
  have f: "formatCardName ''Sol Ring'' = ''sol-ring''" by code_simp
  have "\<not> string_includes ''B'' ''Sol Ring''" by simp
  then have nb: "\<not> (\<exists>ps ss. ''B'' = ps @ ''Sol Ring'' @ ss)"
    using string_includes_iff by blast
  have "string_includes ''A Sol Ring'' ''Sol Ring''" by simp
  then have yb: "\<exists>ps ss. ''A Sol Ring'' = ps @ ''Sol Ring'' @ ss"
    using string_includes_iff by blast
  have k1: "((\<exists>cvs. json_cardviews g1 = Some cvs \<and> (\<exists>cv \<in> set cvs. sanitized cv = ''sol-ring''))
            \<or> (\<exists>h ps ss. json_header g1 = Some h \<and> h = ps @ ''Sol Ring'' @ ss)) = True"
    by (simp add: g1_def)
  have k2: "((\<exists>cvs. json_cardviews g2 = Some cvs \<and> (\<exists>cv \<in> set cvs. sanitized cv = ''sol-ring''))
            \<or> (\<exists>h ps ss. json_header g2 = Some h \<and> h = ps @ ''Sol Ring'' @ ss)) = False"
    using nb by (simp add: g2_def)
  have k3: "((\<exists>cvs. json_cardviews g3 = Some cvs \<and> (\<exists>cv \<in> set cvs. sanitized cv = ''sol-ring''))
            \<or> (\<exists>h ps ss. json_header g3 = Some h \<and> h = ps @ ''Sol Ring'' @ ss)) = True"
    using yb by (simp add: g3_def)
  have "fst (fetchComboData 0 5 (Response 200 (Parsed (Some [g1, g2, g3]))) ''Sol Ring'' initial_state)
       = Some [\<lparr>header = Some ''A'', href = ''/combos/1'', results = [''Mana'']\<rparr>,
               \<lparr>header = Some ''A Sol Ring'', href = ''/combos/3'', results = []\<rparr>]"
    unfolding fetchComboData_filter[OF miss ok groups headers] f
    by (simp only: filter.simps k1 k2 k3 if_True if_False list.map Let_def)
       (simp add: g1_def g3_def)
  with miss ok headers show ?thesis
    unfolding g1_def g2_def g3_def by (simp add: list_all_iff)
qed

section \<open>Properties of the result renderer\<close>

lemma all_nodes_append: "all_nodes (xs @ ys) = all_nodes xs @ all_nodes ys"
  by (induction xs rule: all_nodes.induct) auto

lemma find_first_None_iff:
  "find_first (has_id i) doc = None \<longleftrightarrow> (\<forall>n \<in> set (all_nodes doc). \<not> has_id i n)"
  by (induction "has_id i" doc rule: find_first.induct) (auto split: option.splits)

lemma find_first_None_count:
  "find_first (has_id i) doc = None \<longleftrightarrow> count_nodes (has_id i) doc = 0"
  by (simp add: find_first_None_iff count_nodes_def filter_empty_conv)

lemma remove_first_absent: "find_first P doc = None \<Longrightarrow> remove_first P doc = doc"
  by (induction P doc rule: remove_first.induct) (auto split: option.splits if_splits)

lemma length_remove_first: "length (all_nodes (remove_first P doc)) \<le> length (all_nodes doc)"
  by (induction P doc rule: remove_first.induct) (auto split: option.splits)

lemma count_remove_first:
  "find_first (has_id i) doc \<noteq> None \<Longrightarrow>
   Suc (count_nodes (has_id i) (remove_first (has_id i) doc)) \<le> count_nodes (has_id i) doc"
  by (induction "has_id i" doc rule: remove_first.induct)
     (auto simp: count_nodes_def split: option.splits)


lemma getElementById_after_remove:
  assumes "count_nodes (has_id i) doc \<le> 1"
  shows "find_first (has_id i) (remove_first (has_id i) doc) = None"
proof (cases "find_first (has_id i) doc")
  case None
  then show ?thesis by (simp add: remove_first_absent)
next
  case (Some m)
  then have "Suc (count_nodes (has_id i) (remove_first (has_id i) doc)) \<le> count_nodes (has_id i) doc"
    by (intro count_remove_first) simp
  with assms have "count_nodes (has_id i) (remove_first (has_id i) doc) = 0" by simp
  then show ?thesis by (simp only: find_first_None_count)
qed

lemma displayComboResults_removes:
  "displayComboResults cardName None doc = remove_first (has_id panel_id) doc"
  by (auto simp: displayComboResults_def getElementById_def remove_first_absent split: option.splits)

lemma count_nodes_append: "count_nodes P (xs @ ys) = count_nodes P xs + count_nodes P ys"
  by (simp add: count_nodes_def all_nodes_append)

lemma count_append_child_first:
  "find_first Q doc \<noteq> None \<Longrightarrow>
   count_nodes (has_id i) (append_child_first Q new doc)
     = count_nodes (has_id i) doc + count_nodes (has_id i) [new]"
  by (induction Q new doc rule: append_child_first.induct)
     (auto simp: count_nodes_def all_nodes_append split: option.splits if_splits)

lemma count_result_items: "count_nodes (has_id panel_id) (map result_item rs) = 0"
  by (induction rs) (auto simp: count_nodes_def result_item_def textContent_def panel_id_def all_nodes_append)

lemma count_combo_entries: "count_nodes (has_id panel_id) (map combo_entry cs) = 0"
proof (induction cs)
  case Nil
  show ?case by (simp add: count_nodes_def)
next
  case (Cons c cs)
  have r: "filter (has_id panel_id) (all_nodes (map result_item (results c))) = []"
    using count_result_items[of "results c"] by (simp add: count_nodes_def)
  have p: "[] \<noteq> panel_id" by (simp add: panel_id_def)
  have "count_nodes (has_id panel_id) [combo_entry c] = 0"
    by (auto simp: count_nodes_def combo_entry_def textContent_def p all_nodes_append r
        split: option.splits)
  with Cons count_nodes_append[of "has_id panel_id" "[combo_entry c]" "map combo_entry cs"]
  show ?case by simp
qed

lemma count_combo_panel: "count_nodes (has_id panel_id) [combo_panel cardName cs] = 1"
proof -
  have e: "filter (has_id panel_id) (all_nodes (map combo_entry cs)) = []"
    using count_combo_entries[of cs] by (simp add: count_nodes_def)
  have p: "[] \<noteq> panel_id" by (simp add: panel_id_def)
  show ?thesis
    by (simp add: count_nodes_def combo_panel_def textContent_def all_nodes_append e p
        del: string_of_nat.simps)
qed

text \<open>
  The renderer keeps the document at no more than one element with the panel's id,
  whatever it is called with: a page that holds at most one such element before a call
  holds at most one after it.
\<close>

lemma displayComboResults_unique_panel:
  assumes "count_nodes (has_id panel_id) doc \<le> 1"
  shows "count_nodes (has_id panel_id) (displayComboResults cardName comboData doc) \<le> 1"
proof -
  define doc1 where "doc1 = remove_first (has_id panel_id) doc"
  have d1: "(case getElementById panel_id doc of
               Some existingDisplay \<Rightarrow> remove_first (has_id panel_id) doc
             | None \<Rightarrow> doc) = doc1"
    by (auto simp: doc1_def getElementById_def remove_first_absent split: option.splits)
  have zero: "count_nodes (has_id panel_id) doc1 = 0"
    using getElementById_after_remove[OF assms] by (simp add: doc1_def find_first_None_count)
  show ?thesis
  proof (cases comboData)
    case None
    with zero show ?thesis by (simp add: displayComboResults_def d1)
  next
    case (Some combos)
    show ?thesis
    proof (cases "find_first is_aside doc1")
      case None
      with Some zero show ?thesis by (simp add: displayComboResults_def d1)
    next
      case (Some a)
      then have "find_first is_aside doc1 \<noteq> None" by simp
      from count_append_child_first[OF this, of panel_id "combo_panel cardName combos"]
      have "count_nodes (has_id panel_id) (append_child_first is_aside (combo_panel cardName combos) doc1) = 1"
        by (simp add: zero count_combo_panel)
      with Some \<open>comboData = Some combos\<close> show ?thesis
        by (simp add: displayComboResults_def d1)
    qed
  qed
qed

lemma render_calls_unique_panel:
  "count_nodes (has_id panel_id) doc \<le> 1 \<Longrightarrow>
   count_nodes (has_id panel_id)
     (foldl (\<lambda>d call. displayComboResults (fst call) (snd call) d) doc calls) \<le> 1"
proof (induction calls arbitrary: doc)
  case Nil
  then show ?case by simp
next
  case (Cons call calls)
  from Cons.prems have "count_nodes (has_id panel_id) (displayComboResults (fst call) (snd call) doc) \<le> 1"
    by (rule displayComboResults_unique_panel)
  from Cons.IH[OF this] show ?case by simp
qed

text \<open>
  Claim C8: a call with \<^verbatim>\<open>null\<close> combos removes the existing panel, found by its id, and
  stops. The panel's id is the script's own, so a page holds at most one element with it:
  none before the script ran, and the renderer never leaves more than one, whatever it is
  called with. For every such document the call returns the document with that element
  (and its subtree) removed and nothing else changed, no element with the id is left, no
  node is added, and a document without such an element is returned as it is. In
  particular this is so after any sequence of renderer calls on a page that had no
  element with the id.
\<close>

theorem displayComboResults_null:
  assumes "count_nodes (has_id panel_id) doc \<le> 1"
  shows "getElementById panel_id (displayComboResults cardName None doc) = None
    \<and> displayComboResults cardName None doc = remove_first (has_id panel_id) doc
    \<and> length (all_nodes (displayComboResults cardName None doc)) \<le> length (all_nodes doc)
    \<and> (getElementById panel_id doc = None \<longrightarrow> displayComboResults cardName None doc = doc)
    \<and> count_nodes (has_id panel_id) (displayComboResults cardName' comboData doc) \<le> 1
    \<and> getElementById panel_id
          (displayComboResults cardName None
             (foldl (\<lambda>d call. displayComboResults (fst call) (snd call) d) doc calls)) = None"
proof -
  have "getElementById panel_id (displayComboResults cardName None doc) = None"
    unfolding displayComboResults_removes getElementById_def
    by (rule getElementById_after_remove[OF assms])
  moreover have "length (all_nodes (displayComboResults cardName None doc)) \<le> length (all_nodes doc)"
    unfolding displayComboResults_removes by (rule length_remove_first)
  moreover have "getElementById panel_id doc = None \<longrightarrow> displayComboResults cardName None doc = doc"
    unfolding displayComboResults_removes getElementById_def by (simp add: remove_first_absent)
  moreover have "count_nodes (has_id panel_id) (displayComboResults cardName' comboData doc) \<le> 1"
    by (rule displayComboResults_unique_panel[OF assms])
  moreover have "getElementById panel_id
          (displayComboResults cardName None
             (foldl (\<lambda>d call. displayComboResults (fst call) (snd call) d) doc calls)) = None"
    unfolding displayComboResults_removes getElementById_def
    by (rule getElementById_after_remove[OF render_calls_unique_panel[OF assms]])
  ultimately show ?thesis
    using displayComboResults_removes by blast
qed

text \<open>
  Claim C8 on a page whose anchor holds an image and an old panel, and on the page that
  two renderer calls with combos make of a page without a panel.
\<close>

theorem displayComboResults_null_witness:
  "count_nodes (has_id panel_id)
     [Element ''aside'' [] [''deckview-image-container'', ''is-owner''] []
        [Element ''img'' [] [] [] [], Element ''div'' panel_id [] [] [Text ''old'']]] \<le> 1
   \<and> getElementById panel_id
     [Element ''aside'' [] [''deckview-image-container'', ''is-owner''] []
        [Element ''img'' [] [] [] [], Element ''div'' panel_id [] [] [Text ''old'']]]
       = Some (Element ''div'' panel_id [] [] [Text ''old''])
   \<and> getElementById panel_id (displayComboResults ''Sol Ring'' None
     [Element ''aside'' [] [''deckview-image-container'', ''is-owner''] []
        [Element ''img'' [] [] [] [], Element ''div'' panel_id [] [] [Text ''old'']]]) = None
   \<and> displayComboResults ''Sol Ring'' None
     [Element ''aside'' [] [''deckview-image-container'', ''is-owner''] []
        [Element ''img'' [] [] [] [], Element ''div'' panel_id [] [] [Text ''old'']]]
       = [Element ''aside'' [] [''deckview-image-container'', ''is-owner''] []
            [Element ''img'' [] [] [] []]]
   \<and> count_nodes (has_id panel_id)
       [Element ''aside'' [] [''deckview-image-container'', ''is-owner''] [] []] \<le> 1
   \<and> getElementById panel_id (displayComboResults ''Sol Ring'' None
       (foldl (\<lambda>d call. displayComboResults (fst call) (snd call) d)
          [Element ''aside'' [] [''deckview-image-container'', ''is-owner''] [] []]
          [(''A'', Some []), (''B'', Some [])])) = None"
proof -
  define doc where "doc = [Element ''aside'' [] [''deckview-image-container'', ''is-owner''] []
        [Element ''img'' [] [] [] [], Element ''div'' panel_id [] [] [Text ''old'']]]"
  define page where "page = [Element ''aside'' [] [''deckview-image-container'', ''is-owner''] [] []]"
  have pid: "panel_id \<noteq> []" "[] \<noteq> panel_id" by (simp_all add: panel_id_def)
  have one: "count_nodes (has_id panel_id) doc \<le> 1"
    by (simp add: doc_def count_nodes_def pid)
  have zero: "count_nodes (has_id panel_id) page \<le> 1"
    by (simp add: page_def count_nodes_def pid)
  have before: "getElementById panel_id doc = Some (Element ''div'' panel_id [] [] [Text ''old''])"
    using pid by (simp add: doc_def getElementById_def)
  have rem: "remove_first (has_id panel_id) doc
       = [Element ''aside'' [] [''deckview-image-container'', ''is-owner''] [] [Element ''img'' [] [] [] []]]"
    using pid by (simp add: doc_def)
  note t = displayComboResults_null[OF one, of "''Sol Ring''"]
  from t have a: "getElementById panel_id (displayComboResults ''Sol Ring'' None doc) = None"
    by blast
  from t rem have b: "displayComboResults ''Sol Ring'' None doc
       = [Element ''aside'' [] [''deckview-image-container'', ''is-owner''] [] [Element ''img'' [] [] [] []]]"
    by simp
  note u = displayComboResults_null[OF zero, where cardName = "''Sol Ring''"
      and calls = "[(''A'', Some []), (''B'', Some [])]"]
  from u have c: "getElementById panel_id (displayComboResults ''Sol Ring'' None
       (foldl (\<lambda>d call. displayComboResults (fst call) (snd call) d) page
          [(''A'', Some []), (''B'', Some [])])) = None"
    by blast
  from one before a b zero c show ?thesis
    unfolding doc_def page_def by blast
qed

lemma find_first_append:
  "find_first P (xs @ ys) = (case find_first P xs of Some m \<Rightarrow> Some m | None \<Rightarrow> find_first P ys)"
  by (induction P xs rule: find_first.induct) (auto split: option.splits)

lemma find_first_single: "has_id i n \<Longrightarrow> find_first (has_id i) [n] = Some n"
  by (cases n) auto

lemma append_child_first_member:
  "find_first Q doc \<noteq> None \<Longrightarrow> new \<in> set (all_nodes (append_child_first Q new doc))"
proof (induction Q new doc rule: append_child_first.induct)
  case (1 P new)
  then show ?case by simp
next
  case (2 P new t ns)
  then show ?case by (auto split: if_splits)
next
  case (3 P new tg i cl at ch ns)
  have new: "new \<in> set (all_nodes [new])" by (cases new) auto
  show ?case
  proof (cases "P (Element tg i cl at ch)")
    case True
    with new show ?thesis by (simp add: all_nodes_append)
  next
    case False
    show ?thesis
    proof (cases "find_first P ch")
      case None
      with False 3 show ?thesis by auto
    next
      case (Some m)
      with False 3 show ?thesis by auto
    qed
  qed
qed

lemma append_child_first_length:
  "find_first Q doc \<noteq> None \<Longrightarrow>
   length (all_nodes (append_child_first Q new doc)) = length (all_nodes doc) + length (all_nodes [new])"
  by (induction Q new doc rule: append_child_first.induct)
     (auto simp: all_nodes_append split: option.splits if_splits)

lemma append_child_first_getElementById:
  "find_first (has_id i) doc = None \<Longrightarrow> find_first Q doc \<noteq> None \<Longrightarrow> has_id i new \<Longrightarrow>
   find_first (has_id i) (append_child_first Q new doc) = Some new"
  by (induction Q new doc rule: append_child_first.induct)
     (auto simp: find_first_append find_first_single split: option.splits if_splits)

lemma string_of_nat_0: "string_of_nat 0 = ''0''"
  by code_simp

lemma combo_panel_empty:
  "combo_panel cardName [] =
     Element ''div'' panel_id [] []
       [Element ''span'' [] [] [] [Text (''Combo For '' @ cardName @ '' (0)'')],
        Element ''div'' [] [''d-grid''] [] []]"
  by (simp add: combo_panel_def textContent_def string_of_nat_0 del: string_of_nat.simps)


text \<open>
  Claim C10: a call with the empty array is not the \<^verbatim>\<open>null\<close> case. In every document the
  old panel is removed as for \<^verbatim>\<open>null\<close>. If the anchor
  \<^verbatim>\<open>aside.deckview-image-container.is-owner\<close> is not found in what remains, that is the
  result. If it is found, a new panel is appended to it as its last child: a \<^verbatim>\<open>div\<close> with
  the panel's id whose header reads \<^verbatim>\<open>Combo For <name> (0)\<close> and whose list of combos has
  no entry; the result then holds this panel, has four nodes more than the result of the
  \<^verbatim>\<open>null\<close> case, and so differs from it. Where the document had at most one element of the
  panel's id, \<^verbatim>\<open>getElementById\<close> afterwards finds this new panel if the anchor was found,
  and nothing otherwise.
\<close>

theorem displayComboResults_empty:
  "displayComboResults cardName (Some []) doc =
     (case find_first is_aside (remove_first (has_id panel_id) doc) of
        None \<Rightarrow> remove_first (has_id panel_id) doc
      | Some asideElement \<Rightarrow>
          append_child_first is_aside
            (Element ''div'' panel_id [] []
               [Element ''span'' [] [] [] [Text (''Combo For '' @ cardName @ '' (0)'')],
                Element ''div'' [] [''d-grid''] [] []])
            (remove_first (has_id panel_id) doc))
   \<and> displayComboResults cardName None doc = remove_first (has_id panel_id) doc
   \<and> (find_first is_aside (remove_first (has_id panel_id) doc) = None \<longrightarrow>
        displayComboResults cardName (Some []) doc = displayComboResults cardName None doc)
   \<and> (find_first is_aside (remove_first (has_id panel_id) doc) \<noteq> None \<longrightarrow>
        Element ''div'' panel_id [] []
            [Element ''span'' [] [] [] [Text (''Combo For '' @ cardName @ '' (0)'')],
             Element ''div'' [] [''d-grid''] [] []]
          \<in> set (all_nodes (displayComboResults cardName (Some []) doc))
        \<and> length (all_nodes (displayComboResults cardName (Some []) doc))
            = length (all_nodes (displayComboResults cardName None doc)) + 4
        \<and> displayComboResults cardName (Some []) doc \<noteq> displayComboResults cardName None doc)
   \<and> (count_nodes (has_id panel_id) doc \<le> 1 \<longrightarrow>
        getElementById panel_id (displayComboResults cardName (Some []) doc)
          = (case find_first is_aside (remove_first (has_id panel_id) doc) of
               None \<Rightarrow> None
             | Some asideElement \<Rightarrow>
                 Some (Element ''div'' panel_id [] []
                         [Element ''span'' [] [] [] [Text (''Combo For '' @ cardName @ '' (0)'')],
                          Element ''div'' [] [''d-grid''] [] []])))"
proof -
  define panel where "panel = Element ''div'' panel_id [] []
            [Element ''span'' [] [] [] [Text (''Combo For '' @ cardName @ '' (0)'')],
             Element ''div'' [] [''d-grid''] [] []]"
  define doc1 where "doc1 = remove_first (has_id panel_id) doc"
  have none: "displayComboResults cardName None doc = doc1"
    by (simp add: doc1_def displayComboResults_removes)
  have d1: "(case getElementById panel_id doc of
               Some existingDisplay \<Rightarrow> remove_first (has_id panel_id) doc
             | None \<Rightarrow> doc) = doc1"
    by (auto simp: doc1_def getElementById_def remove_first_absent split: option.splits)
  have eq: "displayComboResults cardName (Some []) doc =
      (case find_first is_aside doc1 of
         None \<Rightarrow> doc1
       | Some asideElement \<Rightarrow> append_child_first is_aside panel doc1)"
    by (simp add: displayComboResults_def d1 combo_panel_empty panel_def split: option.splits)
  have absent: "displayComboResults cardName (Some []) doc = displayComboResults cardName None doc"
    if "find_first is_aside doc1 = None"
    using that by (simp add: eq none)
  have present: "panel \<in> set (all_nodes (displayComboResults cardName (Some []) doc))
      \<and> length (all_nodes (displayComboResults cardName (Some []) doc))
          = length (all_nodes (displayComboResults cardName None doc)) + 4
      \<and> displayComboResults cardName (Some []) doc \<noteq> displayComboResults cardName None doc"
    if found: "find_first is_aside doc1 \<noteq> None"
  proof -
    from found have r: "displayComboResults cardName (Some []) doc = append_child_first is_aside panel doc1"
      by (auto simp: eq)
    have mem: "panel \<in> set (all_nodes (append_child_first is_aside panel doc1))"
      by (rule append_child_first_member[OF found])
    have "length (all_nodes [panel]) = 4" by (simp add: panel_def)
    with append_child_first_length[OF found, of panel]
    have len: "length (all_nodes (append_child_first is_aside panel doc1)) = length (all_nodes doc1) + 4"
      by simp
    then have "append_child_first is_aside panel doc1 \<noteq> doc1" by auto
    with mem len show ?thesis by (simp add: r none)
  qed
  have byid: "find_first (has_id panel_id) (displayComboResults cardName (Some []) doc)
      = (case find_first is_aside doc1 of None \<Rightarrow> None | Some asideElement \<Rightarrow> Some panel)"
    if one: "count_nodes (has_id panel_id) doc \<le> 1"
  proof -
    have gone: "find_first (has_id panel_id) doc1 = None"
      unfolding doc1_def by (rule getElementById_after_remove[OF one])
    show ?thesis
    proof (cases "find_first is_aside doc1")
      case None
      with gone show ?thesis by (simp add: eq)
    next
      case (Some a)
      then have found: "find_first is_aside doc1 \<noteq> None" by simp
      have "has_id panel_id panel" by (simp add: panel_def)
      from append_child_first_getElementById[OF gone found this] Some show ?thesis
        by (simp add: eq)
    qed
  qed
  from eq none absent present byid show ?thesis
    unfolding panel_def doc1_def getElementById_def by blast
qed

text \<open>
  Claim C10 for the name \<^verbatim>\<open>Sol Ring\<close>, on a page whose anchor holds an old panel and on a
  page that holds an old panel and no anchor.
\<close>

theorem displayComboResults_empty_witness:
  "find_first is_aside (remove_first (has_id panel_id)
     [Element ''aside'' [] [''deckview-image-container'', ''is-owner''] []
        [Element ''div'' panel_id [] [] [Text ''old'']]]) \<noteq> None
   \<and> count_nodes (has_id panel_id)
     [Element ''aside'' [] [''deckview-image-container'', ''is-owner''] []
        [Element ''div'' panel_id [] [] [Text ''old'']]] \<le> 1
   \<and> displayComboResults ''Sol Ring'' (Some [])
     [Element ''aside'' [] [''deckview-image-container'', ''is-owner''] []
        [Element ''div'' panel_id [] [] [Text ''old'']]]
     = [Element ''aside'' [] [''deckview-image-container'', ''is-owner''] []
          [Element ''div'' panel_id [] []
             [Element ''span'' [] [] [] [Text ''Combo For Sol Ring (0)''],
              Element ''div'' [] [''d-grid''] [] []]]]
   \<and> getElementById panel_id (displayComboResults ''Sol Ring'' (Some [])
     [Element ''aside'' [] [''deckview-image-container'', ''is-owner''] []
        [Element ''div'' panel_id [] [] [Text ''old'']]])
     = Some (Element ''div'' panel_id [] []
               [Element ''span'' [] [] [] [Text ''Combo For Sol Ring (0)''],
                Element ''div'' [] [''d-grid''] [] []])
   \<and> find_first is_aside (remove_first (has_id panel_id)
       [Element ''div'' panel_id [] [] [Text ''old'']]) = None
   \<and> count_nodes (has_id panel_id) [Element ''div'' panel_id [] [] [Text ''old'']] \<le> 1
   \<and> displayComboResults ''Sol Ring'' (Some []) [Element ''div'' panel_id [] [] [Text ''old'']] = []
   \<and> getElementById panel_id
       (displayComboResults ''Sol Ring'' (Some []) [Element ''div'' panel_id [] [] [Text ''old'']])
     = None"
proof -
  define doc where "doc = [Element ''aside'' [] [''deckview-image-container'', ''is-owner''] []
        [Element ''div'' panel_id [] [] [Text ''old'']]]"
  define bare where "bare = [Element ''div'' panel_id [] [] [Text ''old'']]"
  have pid: "panel_id \<noteq> []" "[] \<noteq> panel_id" by (simp_all add: panel_id_def)
  have rem: "remove_first (has_id panel_id) doc
      = [Element ''aside'' [] [''deckview-image-container'', ''is-owner''] [] []]"
    using pid by (simp add: doc_def)
  have rem': "remove_first (has_id panel_id) bare = []"
    by (simp add: bare_def)
  have anchor: "find_first is_aside (remove_first (has_id panel_id) doc) \<noteq> None"
    by (simp add: rem)
  have anchor': "find_first is_aside (remove_first (has_id panel_id) bare) = None"
    by (simp add: rem')
  have one: "count_nodes (has_id panel_id) doc \<le> 1"
    by (simp add: doc_def count_nodes_def pid)
  have one': "count_nodes (has_id panel_id) bare \<le> 1"
    by (simp add: bare_def count_nodes_def)
  note t = displayComboResults_empty[where cardName = "''Sol Ring''" and doc = doc]
  note t' = displayComboResults_empty[where cardName = "''Sol Ring''" and doc = bare]
  have a: "displayComboResults ''Sol Ring'' (Some []) doc
     = [Element ''aside'' [] [''deckview-image-container'', ''is-owner''] []
          [Element ''div'' panel_id [] []
             [Element ''span'' [] [] [] [Text ''Combo For Sol Ring (0)''],
              Element ''div'' [] [''d-grid''] [] []]]]"
    unfolding t[THEN conjunct1] rem by simp
  have b: "getElementById panel_id (displayComboResults ''Sol Ring'' (Some []) doc)
     = Some (Element ''div'' panel_id [] []
               [Element ''span'' [] [] [] [Text ''Combo For Sol Ring (0)''],
                Element ''div'' [] [''d-grid''] [] []])"
    using t[THEN conjunct2, THEN conjunct2, THEN conjunct2, THEN conjunct2] one
    by (simp add: rem)
  have a': "displayComboResults ''Sol Ring'' (Some []) bare = []"
    unfolding t'[THEN conjunct1] rem' by simp
  have b': "getElementById panel_id (displayComboResults ''Sol Ring'' (Some []) bare) = None"
    using t'[THEN conjunct2, THEN conjunct2, THEN conjunct2, THEN conjunct2] one'
    by (simp add: rem')
  from anchor one a b anchor' one' a' b' show ?thesis
    unfolding doc_def bare_def by blast
qed

end
